theory Spec2Isabelle
  imports Main "HOL-Library.AList" "HOL-Library.Char_ord" "HOL-Library.List_Lexorder"
begin

section \<open>Data model\<close>

text \<open>
  The backend keeps applicants as Python dicts loaded from a JSON array. A value of such
  a dict is an integer, a string or null here (the value types of the applicant schema
  and of an update payload); floats, booleans, arrays and nested objects do not occur in
  the records the program creates and are left out. A dict is an association list in
  insertion order: \<open>d[k]\<close> reads the binding of \<open>k\<close>, \<open>d[k] = v\<close> replaces the binding
  in place or appends a new one.
\<close>

datatype jval = JInt int | JStr string | JNull

type_synonym dict = "(string \<times> jval) list"

type_synonym applicant = dict

text \<open>
  Exceptions are values. \<open>HTTPException\<close> carries the status code and the detail.
  \<open>Unmodelled\<close> marks the one operation of the source whose result is not embedded:
  \<open>%\<close> with a string on the left, which is printf-style formatting in Python.
\<close>

datatype error = KeyError | TypeError | HTTPException nat string | Unmodelled

definition dict_get :: "dict \<Rightarrow> string \<Rightarrow> error + jval" where
  "dict_get d k = (case map_of d k of None \<Rightarrow> Inl KeyError | Some v \<Rightarrow> Inr v)"

definition dict_set :: "dict \<Rightarrow> string \<Rightarrow> jval \<Rightarrow> dict" where
  "dict_set d k v = AList.update k v d"

text \<open>
  The process state: the data file (\<open>None\<close> while \<open>DATA_FILE\<close> does not exist), the
  module-level list \<open>DEFAULTS\<close> as it currently is in memory, and the number of times
  the file has been opened for writing. The module's list is part of the state because
  \<open>_read\<close> hands out \<open>DEFAULTS.copy()\<close>, a shallow copy whose elements are the very dicts
  of \<open>DEFAULTS\<close>; \<open>update_applicant\<close> mutates the matching dict in place.
\<close>

record store =
  data_file :: "applicant list option"
  defaults :: "applicant list"
  writes :: nat

type_synonym 'a outcome = "(error + 'a) \<times> store"

definition DEFAULTS :: "applicant list" where
  "DEFAULTS =
    [[(''id'', JInt 1001), (''name'', JStr ''Anya Sharma''), (''unit'', JStr ''402B''),
      (''date'', JStr ''2025-11-19''), (''status'', JStr ''Decision Ready''),
      (''risk'', JStr ''Low''), (''income_match'', JStr ''110%''), (''error_rate'', JStr ''0%'')],
     [(''id'', JInt 1002), (''name'', JStr ''Ben Carter''), (''unit'', JStr ''105A''),
      (''date'', JStr ''2025-11-18''), (''status'', JStr ''Verification Agent''),
      (''risk'', JStr ''Pending''), (''income_match'', JStr ''Pending''), (''error_rate'', JStr ''N/A'')],
     [(''id'', JInt 1003), (''name'', JStr ''Chloe Davis''), (''unit'', JStr ''512C''),
      (''date'', JStr ''2025-11-17''), (''status'', JStr ''Decision Ready''),
      (''risk'', JStr ''Medium''), (''income_match'', JStr ''85%''), (''error_rate'', JStr ''0%'')],
     [(''id'', JInt 1004), (''name'', JStr ''David Lee''), (''unit'', JStr ''201B''),
      (''date'', JStr ''2025-11-15''), (''status'', JStr ''Document Agent''),
      (''risk'', JStr ''Low''), (''income_match'', JStr ''125%''), (''error_rate'', JStr ''0%'')],
     [(''id'', JInt 1005), (''name'', JStr ''Eva Rodriguez''), (''unit'', JStr ''308D''),
      (''date'', JStr ''2025-11-14''), (''status'', JStr ''Denied''),
      (''risk'', JStr ''High''), (''income_match'', JStr ''60%''), (''error_rate'', JStr ''N/A'')]]"

text \<open>The state of a freshly started process whose data file does not exist yet.\<close>

definition fresh :: store where
  "fresh = \<lparr>data_file = None, defaults = DEFAULTS, writes = 0\<rparr>"

section \<open>services.py\<close>

subsection \<open>Reading and writing the file\<close>

text \<open>
  \<open>_read\<close> and \<open>_write\<close> of the source (an Isabelle name cannot start with an
  underscore, so the prefix is \<open>u_\<close>). A missing file is seeded with the module's list and
  a copy of that list is returned; otherwise the file's content is returned.
  \<open>json.dump\<close> followed by \<open>json.load\<close> is the identity on the values modelled.
\<close>

definition u_write :: "applicant list \<Rightarrow> store \<Rightarrow> store" where
  "u_write data st = st\<lparr>data_file := Some data, writes := writes st + 1\<rparr>"

definition u_read :: "store \<Rightarrow> applicant list \<times> store" where
  "u_read st =
    (case data_file st of
       None \<Rightarrow> (defaults st, st\<lparr>data_file := Some (defaults st), writes := writes st + 1\<rparr>)
     | Some data \<Rightarrow> (data, st))"

definition list_applicants :: "store \<Rightarrow> applicant list \<times> store" where
  "list_applicants st = u_read st"

subsection \<open>Lookup\<close>

text \<open>
  The loop \<open>for a in data: if a["id"] == app_id: return a\<close>. A record without the key
  \<open>id\<close> raises \<open>KeyError\<close> when the loop reaches it.
\<close>

fun find_applicant :: "applicant list \<Rightarrow> int \<Rightarrow> error + applicant option" where
  "find_applicant [] app_id = Inr None"
| "find_applicant (a # data) app_id =
     (case dict_get a ''id'' of
        Inl e \<Rightarrow> Inl e
      | Inr v \<Rightarrow> if v = JInt app_id then Inr (Some a) else find_applicant data app_id)"

definition get_applicant :: "int \<Rightarrow> store \<Rightarrow> applicant option outcome" where
  "get_applicant app_id st =
    (let (data, st1) = u_read st in (find_applicant data app_id, st1))"

subsection \<open>Creation\<close>

text \<open>
  \<open>max((a["id"] for a in data), default=1000) + 1\<close>: the generator is consumed lazily,
  so lookups and comparisons alternate. \<open>max\<close> keeps the first of equal items and
  compares with \<open>>\<close>, which is defined between two integers and between two strings
  only.
\<close>

fun py_gt :: "jval \<Rightarrow> jval \<Rightarrow> error + bool" where
  "py_gt (JInt a) (JInt b) = Inr (b < a)"
| "py_gt (JStr a) (JStr b) = Inr (b < a)"
| "py_gt _ _ = Inl TypeError"

fun max_loop :: "jval \<Rightarrow> applicant list \<Rightarrow> error + jval" where
  "max_loop m [] = Inr m"
| "max_loop m (a # data) =
     (case dict_get a ''id'' of
        Inl e \<Rightarrow> Inl e
      | Inr v \<Rightarrow>
          (case py_gt v m of
             Inl e \<Rightarrow> Inl e
           | Inr b \<Rightarrow> max_loop (if b then v else m) data))"

fun max_id :: "applicant list \<Rightarrow> error + jval" where
  "max_id [] = Inr (JInt 1000)"
| "max_id (a # data) =
     (case dict_get a ''id'' of Inl e \<Rightarrow> Inl e | Inr v \<Rightarrow> max_loop v data)"

fun py_add1 :: "jval \<Rightarrow> error + jval" where
  "py_add1 (JInt n) = Inr (JInt (n + 1))"
| "py_add1 _ = Inl TypeError"

text \<open>
  \<open>today\<close> stands for \<open>datetime.now().strftime("%Y-%m-%d")\<close>, read from the clock.
\<close>

definition new_applicant :: "jval \<Rightarrow> string \<Rightarrow> string \<Rightarrow> string \<Rightarrow> applicant" where
  "new_applicant new_id name unit today =
    [(''id'', new_id), (''name'', JStr name), (''unit'', JStr unit), (''date'', JStr today),
     (''status'', JStr ''Submitted/Manual''), (''risk'', JStr ''Pending''),
     (''income_match'', JStr ''N/A''), (''error_rate'', JStr ''N/A'')]"

definition create_applicant :: "string \<Rightarrow> string \<Rightarrow> string \<Rightarrow> store \<Rightarrow> applicant outcome" where
  "create_applicant name unit today st =
    (let (data, st1) = u_read st in
     case max_id data of
       Inl e \<Rightarrow> (Inl e, st1)
     | Inr m \<Rightarrow>
         (case py_add1 m of
            Inl e \<Rightarrow> (Inl e, st1)
          | Inr new_id \<Rightarrow>
              (let new = new_applicant new_id name unit today
               in (Inr new, u_write (data @ [new]) st1))))"

subsection \<open>Update\<close>

text \<open>
  The inner loop \<open>for k, v in updates.items(): if v is not None: a[k] = v\<close>.
\<close>

fun merge_updates :: "applicant \<Rightarrow> dict \<Rightarrow> applicant" where
  "merge_updates a [] = a"
| "merge_updates a ((k, v) # updates) =
     merge_updates (if v \<noteq> JNull then dict_set a k v else a) updates"

text \<open>
  The outer loop over \<open>enumerate(data)\<close>: the first record whose id equals \<open>app_id\<close> is
  merged with the updates and the loop returns at once; \<open>data[i] = a\<close> stores the object
  that is already there. The result is the new list and the merged record, or \<open>None\<close>
  when the loop ends without a match.
\<close>

fun update_in :: "applicant list \<Rightarrow> int \<Rightarrow> dict \<Rightarrow> error + (applicant list \<times> applicant) option" where
  "update_in [] app_id updates = Inr None"
| "update_in (a # data) app_id updates =
     (case dict_get a ''id'' of
        Inl e \<Rightarrow> Inl e
      | Inr v \<Rightarrow>
          if v = JInt app_id
          then (let a' = merge_updates a updates in Inr (Some (a' # data, a')))
          else (case update_in data app_id updates of
                  Inl e \<Rightarrow> Inl e
                | Inr None \<Rightarrow> Inr None
                | Inr (Some (data', a')) \<Rightarrow> Inr (Some (a # data', a'))))"

text \<open>
  When the file was missing, \<open>data\<close> is the shallow copy of the module's list, so the
  record mutated in place is also the record of \<open>DEFAULTS\<close> at the same index: the
  module's list then equals the list that is written.
\<close>

definition update_applicant :: "int \<Rightarrow> dict \<Rightarrow> store \<Rightarrow> applicant option outcome" where
  "update_applicant app_id updates st =
    (let shared = (data_file st = None); (data, st1) = u_read st in
     case update_in data app_id updates of
       Inl e \<Rightarrow> (Inl e, st1)
     | Inr None \<Rightarrow> (Inr None, st1)
     | Inr (Some (data', a')) \<Rightarrow>
         (Inr (Some a'), u_write data' (if shared then st1\<lparr>defaults := data'\<rparr> else st1)))"

subsection \<open>Deletion\<close>

text \<open>The comprehension \<open>[a for a in data if a["id"] != app_id]\<close>.\<close>

fun others :: "applicant list \<Rightarrow> int \<Rightarrow> error + applicant list" where
  "others [] app_id = Inr []"
| "others (a # data) app_id =
     (case dict_get a ''id'' of
        Inl e \<Rightarrow> Inl e
      | Inr v \<Rightarrow>
          (case others data app_id of
             Inl e \<Rightarrow> Inl e
           | Inr new \<Rightarrow> Inr (if v \<noteq> JInt app_id then a # new else new)))"

definition delete_applicant :: "int \<Rightarrow> store \<Rightarrow> bool outcome" where
  "delete_applicant app_id st =
    (let (data, st1) = u_read st in
     case others data app_id of
       Inl e \<Rightarrow> (Inl e, st1)
     | Inr new \<Rightarrow>
         if length new = length data then (Inr False, st1)
         else (Inr True, u_write new st1))"

subsection \<open>The decision task\<close>

text \<open>
  \<open>_mock_decision_engine\<close>: after the sleep, the risk follows the parity of the id.
  \<open>now\<close> stands for \<open>datetime.utcnow().isoformat()\<close>.
\<close>

fun py_mod2 :: "jval \<Rightarrow> error + jval" where
  "py_mod2 (JInt n) = Inr (JInt (n mod 2))"
| "py_mod2 (JStr s) = Inl Unmodelled"
| "py_mod2 JNull = Inl TypeError"

definition u_mock_decision_engine :: "string \<Rightarrow> applicant \<Rightarrow> error + dict" where
  "u_mock_decision_engine now applicant =
    (case dict_get applicant ''id'' of
       Inl e \<Rightarrow> Inl e
     | Inr v \<Rightarrow>
         (case py_mod2 v of
            Inl e \<Rightarrow> Inl e
          | Inr r \<Rightarrow>
              (let risk = (if r = JInt 0 then ''Low'' else ''Medium'')
               in Inr [(''status'', JStr ''Decision Ready''), (''risk'', JStr risk),
                       (''note'', JStr (''Processed at '' @ now))])))"

text \<open>
  Truth value of \<open>not x\<close> for \<open>x\<close> that is \<open>None\<close> or a dict: an empty dict is false too.
\<close>

fun py_not :: "dict option \<Rightarrow> bool" where
  "py_not None = True"
| "py_not (Some d) = (d = [])"

text \<open>
  The coroutine \<open>task\<close> of \<open>enqueue_decision_agent\<close>. The engine sleeps between the
  lookup and the write-back, and each store operation takes the lock on its own, so other
  requests can run in between: \<open>during\<close> is what they do to the state while the task
  sleeps (the identity when nothing else runs).
\<close>

definition task :: "(store \<Rightarrow> store) \<Rightarrow> string \<Rightarrow> int \<Rightarrow> store \<Rightarrow> unit outcome" where
  "task during now applicant_id st =
    (case get_applicant applicant_id st of
       (Inl e, st1) \<Rightarrow> (Inl e, st1)
     | (Inr applicant, st1) \<Rightarrow>
         if py_not applicant then (Inr (), st1)
         else
           (case u_mock_decision_engine now (the applicant) of
              Inl e \<Rightarrow> (Inl e, during st1)
            | Inr res \<Rightarrow>
                (case dict_get res ''status'' of
                   Inl e \<Rightarrow> (Inl e, during st1)
                 | Inr s \<Rightarrow>
                     (case dict_get res ''risk'' of
                        Inl e \<Rightarrow> (Inl e, during st1)
                      | Inr r \<Rightarrow>
                          (case update_applicant applicant_id [(''status'', s), (''risk'', r)]
                                  (during st1) of
                             (Inl e, st2) \<Rightarrow> (Inl e, st2)
                           | (Inr _, st2) \<Rightarrow> (Inr (), st2))))))"

text \<open>
  \<open>background_tasks.add_task(asyncio.run, task())\<close>: the queue of scheduled tasks, each
  known by the applicant id it closes over.
\<close>

definition enqueue_decision_agent :: "int list \<Rightarrow> int \<Rightarrow> int list" where
  "enqueue_decision_agent background_tasks applicant_id = background_tasks @ [applicant_id]"

section \<open>api.py\<close>

text \<open>
  A handler is modelled by its body. What the framework does around it (parsing the
  request into the payload model, serialising the returned value) is not part of the
  model; the payload types below are what the handlers receive.
\<close>

datatype ApplicantCreate = ApplicantCreate (name: string) (unit: "string option")

datatype ApplicantUpdate = ApplicantUpdate (status: "string option") (risk: "string option")

fun opt_jval :: "string option \<Rightarrow> jval" where
  "opt_jval None = JNull"
| "opt_jval (Some s) = JStr s"

text \<open>\<open>payload.dict()\<close> of an \<open>ApplicantUpdate\<close>: both fields, unset ones as \<open>None\<close>.\<close>

definition payload_dict :: "ApplicantUpdate \<Rightarrow> dict" where
  "payload_dict payload =
    [(''status'', opt_jval (status payload)), (''risk'', opt_jval (risk payload))]"

definition not_found :: error where
  "not_found = HTTPException 404 ''Applicant not found''"

definition api_list_applicants :: "store \<Rightarrow> applicant list outcome" where
  "api_list_applicants st = (let (data, st1) = list_applicants st in (Inr data, st1))"

definition api_get_applicant :: "int \<Rightarrow> store \<Rightarrow> applicant outcome" where
  "api_get_applicant app_id st =
    (case get_applicant app_id st of
       (Inl e, st1) \<Rightarrow> (Inl e, st1)
     | (Inr app, st1) \<Rightarrow> if py_not app then (Inl not_found, st1) else (Inr (the app), st1))"

definition api_create_applicant :: "ApplicantCreate \<Rightarrow> string \<Rightarrow> store \<Rightarrow> applicant outcome" where
  "api_create_applicant payload today st =
    create_applicant (name payload)
      (case unit payload of None \<Rightarrow> '''' | Some u \<Rightarrow> if u = '''' then '''' else u) today st"

definition patch_applicant :: "int \<Rightarrow> ApplicantUpdate \<Rightarrow> store \<Rightarrow> applicant outcome" where
  "patch_applicant app_id payload st =
    (case update_applicant app_id (payload_dict payload) st of
       (Inl e, st1) \<Rightarrow> (Inl e, st1)
     | (Inr updated, st1) \<Rightarrow>
         if py_not updated then (Inl not_found, st1) else (Inr (the updated), st1))"

definition api_delete_applicant :: "int \<Rightarrow> store \<Rightarrow> unit outcome" where
  "api_delete_applicant app_id st =
    (case delete_applicant app_id st of
       (Inl e, st1) \<Rightarrow> (Inl e, st1)
     | (Inr ok, st1) \<Rightarrow> if \<not> ok then (Inl not_found, st1) else (Inr (), st1))"

text \<open>
  \<open>run_decision\<close> answers with \<open>{"status": "queued", "applicant_id": app_id}\<close> and leaves
  the task in the queue; the task itself runs after the response.
\<close>

definition run_decision :: "int \<Rightarrow> int list \<Rightarrow> store \<Rightarrow> (error + dict) \<times> int list \<times> store" where
  "run_decision app_id background_tasks st =
    (case get_applicant app_id st of
       (Inl e, st1) \<Rightarrow> (Inl e, background_tasks, st1)
     | (Inr app, st1) \<Rightarrow>
         if py_not app then (Inl not_found, background_tasks, st1)
         else (Inr [(''status'', JStr ''queued''), (''applicant_id'', JInt app_id)],
               enqueue_decision_agent background_tasks app_id, st1))"

section \<open>Notions used to state the properties\<close>

text \<open>
  The collection is what any read returns: the content of the file, or the list the file
  is about to be seeded with. \<open>after_read\<close> is the state a read leaves behind: the
  state itself when the file exists.
\<close>

definition collection :: "store \<Rightarrow> applicant list" where
  "collection st = fst (u_read st)"

definition after_read :: "store \<Rightarrow> store" where
  "after_read st = snd (u_read st)"

definition ids :: "applicant list \<Rightarrow> jval option list" where
  "ids data = map (\<lambda>a. map_of a ''id'') data"

definition present :: "int \<Rightarrow> applicant list \<Rightarrow> bool" where
  "present app_id data = (Some (JInt app_id) \<in> set (ids data))"

definition has_ids :: "applicant list \<Rightarrow> bool" where
  "has_ids data = list_all (\<lambda>a. map_of a ''id'' \<noteq> None) data"

definition unique_ids :: "applicant list \<Rightarrow> bool" where
  "unique_ids data = distinct (ids data)"

fun id_values :: "applicant list \<Rightarrow> int list" where
  "id_values [] = []"
| "id_values (a # data) =
     (case map_of a ''id'' of Some (JInt n) \<Rightarrow> n # id_values data | _ \<Rightarrow> id_values data)"

definition int_ids :: "applicant list \<Rightarrow> bool" where
  "int_ids data =
    list_all (\<lambda>a. case map_of a ''id'' of Some (JInt n) \<Rightarrow> True | _ \<Rightarrow> False) data"

text \<open>The column of one field over the whole collection.\<close>

definition fields :: "string \<Rightarrow> applicant list \<Rightarrow> jval option list" where
  "fields k data = map (\<lambda>a. map_of a k) data"

text \<open>The pair the decision task writes back for an applicant id.\<close>

definition decision :: "int \<Rightarrow> dict" where
  "decision applicant_id =
    [(''status'', JStr ''Decision Ready''),
     (''risk'', JStr (if even applicant_id then ''Low'' else ''Medium''))]"

text \<open>How many records carry an id, and the collection without the records of an id.\<close>

definition count_id :: "int \<Rightarrow> applicant list \<Rightarrow> nat" where
  "count_id app_id data = length (filter (\<lambda>a. map_of a ''id'' = Some (JInt app_id)) data)"

definition without :: "int \<Rightarrow> applicant list \<Rightarrow> applicant list" where
  "without app_id data = filter (\<lambda>a. map_of a ''id'' \<noteq> Some (JInt app_id)) data"

text \<open>
  The id the specification gives a new record: 1001 for an empty collection, else the
  greatest existing id plus one.
\<close>

definition next_id :: "applicant list \<Rightarrow> int" where
  "next_id data = (if data = [] then 1001 else Max (set (id_values data)) + 1)"

text \<open>A store whose file holds the first two sample records, written three times so far.\<close>

definition sample :: store where
  "sample = \<lparr>data_file = Some (take 2 DEFAULTS), defaults = DEFAULTS, writes = 3\<rparr>"

text \<open>A store whose file holds an empty array.\<close>

definition empty_store :: store where
  "empty_store = \<lparr>data_file = Some [], defaults = DEFAULTS, writes = 1\<rparr>"

section \<open>Reading, lookup and merging\<close>

lemma u_read_present: "data_file st = Some data \<Longrightarrow> u_read st = (data, st)"
  by (simp add: u_read_def)

lemma u_read_absent:
  "data_file st = None \<Longrightarrow>
     u_read st = (defaults st, st\<lparr>data_file := Some (defaults st), writes := writes st + 1\<rparr>)"
  by (simp add: u_read_def)

lemma u_read_fst: "fst (u_read st) = collection st"
  by (simp add: collection_def)

lemma u_read_split: "u_read st = (collection st, snd (u_read st))"
  by (simp add: collection_def)

lemma data_file_after_read: "data_file (snd (u_read st)) = Some (collection st)"
  by (simp add: collection_def u_read_def split: option.splits)

lemma collection_after_read: "collection (snd (u_read st)) = collection st"
  by (simp add: collection_def u_read_def split: option.splits)

lemma read_twice: "u_read (snd (u_read st)) = (collection st, snd (u_read st))"
  by (simp add: collection_def u_read_def split: option.splits)

lemma collection_u_write: "collection (u_write data st) = data"
  by (simp add: collection_def u_read_def u_write_def)

lemma collection_present: "data_file st = Some data \<Longrightarrow> collection st = data"
  by (simp add: collection_def u_read_def)

lemma dict_get_Inr: "dict_get a k = Inr v \<longleftrightarrow> map_of a k = Some v"
  by (simp add: dict_get_def split: option.splits)

lemma dict_get_Inl: "dict_get a k = Inl e \<longleftrightarrow> map_of a k = None \<and> e = KeyError"
  by (auto simp add: dict_get_def split: option.splits)

lemma find_None_absent: "find_applicant data app_id = Inr None \<Longrightarrow> \<not> present app_id data"
  by (induction data) (auto simp: present_def ids_def dict_get_def split: option.splits if_splits)

lemma find_None_has_ids: "find_applicant data app_id = Inr None \<Longrightarrow> has_ids data"
  by (induction data) (auto simp: has_ids_def dict_get_def split: option.splits if_splits)

lemma find_Some: "find_applicant data app_id = Inr (Some a) \<Longrightarrow>
   a \<in> set data \<and> map_of a ''id'' = Some (JInt app_id)"
  by (induction data) (auto simp: dict_get_def split: option.splits if_splits)

lemma find_Some_present: "find_applicant data app_id = Inr (Some a) \<Longrightarrow> present app_id data"
  using find_Some[of data app_id a] by (force simp: present_def ids_def)

lemma find_Some_nonempty: "find_applicant data app_id = Inr (Some a) \<Longrightarrow> a \<noteq> []"
  using find_Some[of data app_id a] by auto

lemma find_absent: "has_ids data \<Longrightarrow> \<not> present app_id data \<Longrightarrow> find_applicant data app_id = Inr None"
  by (induction data) (auto simp: present_def ids_def has_ids_def dict_get_def split: option.splits)

lemma find_present: "has_ids data \<Longrightarrow> present app_id data \<Longrightarrow> \<exists>a. find_applicant data app_id = Inr (Some a)"
  by (induction data) (auto simp: present_def ids_def has_ids_def dict_get_def split: option.splits)

lemma find_has_ids_cases: "has_ids data \<Longrightarrow> find_applicant data app_id \<noteq> Inl e"
  by (induction data) (auto simp: has_ids_def dict_get_def split: option.splits)

lemma map_of_dict_set: "map_of (dict_set a k v) k' = (if k' = k then Some v else map_of a k')"
  by (simp add: dict_set_def update_conv')

lemma merge_other_key: "k \<notin> fst ` set updates \<Longrightarrow> map_of (merge_updates a updates) k = map_of a k"
  by (induction a updates rule: merge_updates.induct) (auto simp: dict_set_def update_conv')

lemma merge_lookup:
  "distinct (map fst updates) \<Longrightarrow>
   map_of (merge_updates a updates) k =
     (case map_of updates k of
        None \<Rightarrow> map_of a k
      | Some v \<Rightarrow> if v = JNull then map_of a k else Some v)"
proof (induction a updates rule: merge_updates.induct)
  case (1 a)
  then show ?case by simp
next
  case (2 a k' v updates)
  show ?case
  proof (cases "k = k'")
    case True
    with 2 have "k \<notin> fst ` set updates" by auto
    then have "map_of (merge_updates (if v \<noteq> JNull then dict_set a k' v else a) updates) k
      = map_of (if v \<noteq> JNull then dict_set a k' v else a) k"
      by (rule merge_other_key)
    with True show ?thesis by (simp add: dict_set_def update_conv')
  next
    case False
    then have "map_of (dict_set a k' v) k = map_of a k"
      by (simp add: map_of_dict_set)
    with 2 False show ?thesis by (simp split: option.splits)
  qed
qed

lemma merge_nonempty: "a \<noteq> [] \<Longrightarrow> merge_updates a updates \<noteq> []"
  by (induction a updates rule: merge_updates.induct) (auto simp: dict_set_def)

lemma update_in_error: "find_applicant data app_id = Inl e \<Longrightarrow> update_in data app_id updates = Inl e"
  by (induction data) (auto split: sum.splits if_splits)

lemma update_in_None: "find_applicant data app_id = Inr None \<Longrightarrow> update_in data app_id updates = Inr None"
  by (induction data) (auto split: sum.splits if_splits)

lemma update_in_Some:
  "find_applicant data app_id = Inr (Some a) \<Longrightarrow>
   \<exists>i. i < length data \<and> data ! i = a \<and>
       (\<forall>j<i. map_of (data ! j) ''id'' \<noteq> Some (JInt app_id)) \<and>
       update_in data app_id updates =
         Inr (Some (data[i := merge_updates a updates], merge_updates a updates))"
proof (induction data)
  case Nil
  then show ?case by simp
next
  case (Cons b data)
  show ?case
  proof (cases "map_of b ''id'' = Some (JInt app_id)")
    case True
    with Cons.prems have "a = b" by (simp add: dict_get_def)
    with True show ?thesis
      by (intro exI[of _ 0]) (simp add: dict_get_def Let_def)
  next
    case False
    with Cons.prems obtain v where v: "map_of b ''id'' = Some v" "v \<noteq> JInt app_id"
      and f: "find_applicant data app_id = Inr (Some a)"
      by (auto simp: dict_get_def split: option.splits if_splits)
    from Cons.IH[OF f] obtain i where i: "i < length data" "data ! i = a"
      "\<forall>j<i. map_of (data ! j) ''id'' \<noteq> Some (JInt app_id)"
      "update_in data app_id updates =
         Inr (Some (data[i := merge_updates a updates], merge_updates a updates))"
      by blast
    have "\<forall>j<Suc i. map_of ((b # data) ! j) ''id'' \<noteq> Some (JInt app_id)"
      using i(3) False by (auto simp: nth_Cons split: nat.splits)
    with i v show ?thesis
      by (intro exI[of _ "Suc i"]) (simp add: dict_get_def)
  qed
qed

lemma u_read_eq: "u_read st = (collection st, after_read st)"
  by (simp add: collection_def after_read_def)

lemma after_read_present: "data_file st \<noteq> None \<Longrightarrow> after_read st = st"
  by (auto simp: after_read_def u_read_def)

lemma collection_after_read': "collection (after_read st) = collection st"
  by (simp add: after_read_def collection_after_read)

lemma data_file_after_read': "data_file (after_read st) = Some (collection st)"
  by (simp add: after_read_def data_file_after_read)

lemma after_read_idem: "after_read (after_read st) = after_read st"
  by (simp add: after_read_present data_file_after_read')

lemma writes_after_read:
  "writes (after_read st) = (if data_file st = None then writes st + 1 else writes st)"
  by (auto simp: after_read_def u_read_def)

lemma get_applicant_eq:
  "get_applicant app_id st = (find_applicant (collection st) app_id, after_read st)"
  by (simp add: get_applicant_def u_read_eq)

lemma absent_find: "\<not> present app_id data \<Longrightarrow>
   find_applicant data app_id = Inr None \<or> (\<exists>e. find_applicant data app_id = Inl e)"
proof (cases "find_applicant data app_id")
  case (Inl e)
  then show ?thesis by simp
next
  case (Inr r)
  assume np: "\<not> present app_id data"
  show ?thesis
  proof (cases r)
    case None
    with Inr show ?thesis by simp
  next
    case (Some a)
    with Inr np find_Some_present[of data app_id a] show ?thesis by simp
  qed
qed

lemma update_applicant_error:
  "find_applicant (collection st) app_id = Inl e \<Longrightarrow>
   update_applicant app_id updates st = (Inl e, after_read st)"
  by (simp add: update_applicant_def u_read_eq update_in_error)

lemma update_applicant_None:
  "find_applicant (collection st) app_id = Inr None \<Longrightarrow>
   update_applicant app_id updates st = (Inr None, after_read st)"
  by (simp add: update_applicant_def u_read_eq update_in_None)

lemma update_applicant_absent_state:
  "\<not> present app_id (collection st) \<Longrightarrow> snd (update_applicant app_id updates st) = after_read st"
  using absent_find[of app_id "collection st"]
  by (auto simp: update_applicant_error update_applicant_None)

lemma update_applicant_absent_result:
  "\<not> present app_id (collection st) \<Longrightarrow> has_ids (collection st) \<Longrightarrow>
   update_applicant app_id updates st = (Inr None, after_read st)"
  by (simp add: update_applicant_None find_absent)

lemma patch_absent_state:
  "\<not> present app_id (collection st) \<Longrightarrow> snd (patch_applicant app_id payload st) = after_read st"
  using absent_find[of app_id "collection st"]
  by (auto simp: patch_applicant_def update_applicant_error update_applicant_None)

lemma patch_absent_result:
  "\<not> present app_id (collection st) \<Longrightarrow> has_ids (collection st) \<Longrightarrow>
   patch_applicant app_id payload st = (Inl not_found, after_read st)"
  by (simp add: patch_applicant_def update_applicant_absent_result)

lemma task_absent_state:
  "\<not> present applicant_id (collection st) \<Longrightarrow>
   snd (task during now applicant_id st) = after_read st"
  using absent_find[of applicant_id "collection st"]
  by (auto simp: task_def get_applicant_eq)

lemma task_absent_result:
  "\<not> present applicant_id (collection st) \<Longrightarrow> has_ids (collection st) \<Longrightarrow>
   task during now applicant_id st = (Inr (), after_read st)"
  by (simp add: task_def get_applicant_eq find_absent)

lemma ids_DEFAULTS: "ids DEFAULTS = map (\<lambda>n. Some (JInt n)) [1001, 1002, 1003, 1004, 1005]"
  by (simp add: ids_def DEFAULTS_def)

lemma has_ids_DEFAULTS: "has_ids DEFAULTS"
  by (simp add: has_ids_def DEFAULTS_def)

lemma collection_fresh: "collection fresh = DEFAULTS"
  by (simp add: collection_def u_read_def fresh_def)

lemma collection_sample: "collection sample = take 2 DEFAULTS"
  by (simp add: collection_def u_read_def sample_def)

lemma sample_absent: "\<not> present 1003 (collection sample)"
  by (simp add: collection_sample present_def ids_def DEFAULTS_def)

lemma sample_has_ids: "has_ids (collection sample)"
  by (simp add: collection_sample has_ids_def DEFAULTS_def)

lemma sample_file: "data_file sample \<noteq> None"
  by (simp add: sample_def)

lemmas sample_facts = sample_absent sample_has_ids sample_file

section \<open>Seeding and reading the file\<close>

text \<open>
  The module's list in memory changes in one situation only: an update that itself seeded
  the file and found its record. Every other operation leaves it alone, so it is the list
  the module defines until such an update has run.
\<close>

lemma defaults_after_read: "defaults (after_read st) = defaults st"
  by (simp add: after_read_def u_read_def split: option.splits)

lemma update_keeps_module_list:
  "data_file st \<noteq> None \<Longrightarrow> defaults (snd (update_applicant app_id updates st)) = defaults st"
  by (auto simp: update_applicant_def u_read_def u_write_def split: option.splits sum.splits)

lemma other_operations_keep_module_list:
  "defaults (snd (list_applicants st)) = defaults st"
  "defaults (snd (get_applicant app_id st)) = defaults st"
  "defaults (snd (create_applicant nm un today st)) = defaults st"
  "defaults (snd (delete_applicant app_id st)) = defaults st"
  by (auto simp: list_applicants_def get_applicant_def create_applicant_def delete_applicant_def
      u_read_def u_write_def Let_def split: option.splits sum.splits)

lemma seeded_update_changes_module_list:
  "defaults (snd (update_applicant 1001 [(''status'', JStr ''Denied'')] fresh)) \<noteq> DEFAULTS"
  by (simp add: update_applicant_def u_read_def u_write_def fresh_def DEFAULTS_def dict_get_def Let_def
      dict_set_def)

text \<open>
  C8. While the module's list is still as the module defines it (nothing has been read
  yet), a read that finds no file writes exactly the five sample records, with ids 1001
  to 1005, and returns them; a read that finds the file returns its content and leaves
  the state alone.
\<close>

theorem read_seeds_or_returns_file:
  "(data_file st = None \<and> defaults st = DEFAULTS \<longrightarrow>
      u_read st = (DEFAULTS, st\<lparr>data_file := Some DEFAULTS, writes := writes st + 1\<rparr>)
      \<and> list_applicants st = u_read st
      \<and> length DEFAULTS = 5
      \<and> ids DEFAULTS = map (\<lambda>n. Some (JInt n)) [1001, 1002, 1003, 1004, 1005])
   \<and> (\<forall>data. data_file st = Some data \<longrightarrow>
         u_read st = (data, st) \<and> list_applicants st = (data, st))"
  by (simp add: u_read_absent u_read_present list_applicants_def ids_DEFAULTS)
     (simp add: DEFAULTS_def)

theorem read_seeds_or_returns_file_witness:
  "u_read fresh = (DEFAULTS, \<lparr>data_file = Some DEFAULTS, defaults = DEFAULTS, writes = 1\<rparr>)
   \<and> list_applicants \<lparr>data_file = Some [[(''id'', JInt 7)]], defaults = DEFAULTS, writes = 4\<rparr>
       = ([[(''id'', JInt 7)]], \<lparr>data_file = Some [[(''id'', JInt 7)]], defaults = DEFAULTS, writes = 4\<rparr>)"
  using read_seeds_or_returns_file[of fresh]
        read_seeds_or_returns_file[of "\<lparr>data_file = Some [[(''id'', JInt 7)]], defaults = DEFAULTS, writes = 4\<rparr>"]
  by (simp add: fresh_def)

section \<open>Unknown ids\<close>

text \<open>
  C4. When no record of the collection carries the id, an update (directly or through
  PATCH) leaves behind the state of a plain read: the collection is the same, and when
  the file exists the whole state is the same, the write count included. When every
  record has an id, the service returns \<open>None\<close> and PATCH answers not-found.
\<close>

theorem update_unknown_id_unchanged:
  assumes "\<not> present app_id (collection st)"
  shows "snd (update_applicant app_id updates st) = after_read st
     \<and> snd (patch_applicant app_id payload st) = after_read st
     \<and> collection (after_read st) = collection st
     \<and> (data_file st \<noteq> None \<longrightarrow> after_read st = st)
     \<and> (has_ids (collection st) \<longrightarrow>
          fst (update_applicant app_id updates st) = Inr None
          \<and> fst (patch_applicant app_id payload st) = Inl not_found)"
  using assms
  by (simp add: update_applicant_absent_state patch_absent_state collection_after_read'
      after_read_present update_applicant_absent_result patch_absent_result)

theorem update_unknown_id_unchanged_witness:
  "\<not> present 1003 (collection sample) \<and> has_ids (collection sample)
   \<and> update_applicant 1003 [(''status'', JStr ''Denied'')] sample = (Inr None, sample)
   \<and> patch_applicant 1003 (ApplicantUpdate (Some ''Denied'') None) sample = (Inl not_found, sample)"
  using update_unknown_id_unchanged[of 1003 sample "[(''status'', JStr ''Denied'')]"
          "ApplicantUpdate (Some ''Denied'') None"]
    sample_facts
  by (simp add: prod_eq_iff)

text \<open>
  C9. When no record of the collection carries the id, the decision task ends at its
  lookup, before the sleep: it leaves behind the state of a plain read, whatever other
  requests would have done meanwhile. The collection is the same, and when the file
  exists the whole state is the same, so nothing was written. When every record has an
  id, the task ends normally.
\<close>

theorem task_unknown_id_no_effect:
  assumes "\<not> present applicant_id (collection st)"
  shows "snd (task during now applicant_id st) = after_read st
     \<and> collection (after_read st) = collection st
     \<and> (data_file st \<noteq> None \<longrightarrow> after_read st = st)
     \<and> (has_ids (collection st) \<longrightarrow> fst (task during now applicant_id st) = Inr ())"
  using assms
  by (simp add: task_absent_state collection_after_read' after_read_present task_absent_result)

theorem task_unknown_id_no_effect_witness:
  "\<not> present 1003 (collection sample) \<and> has_ids (collection sample)
   \<and> task (\<lambda>s. s\<lparr>data_file := None\<rparr>) ''2026-01-01T00:00:00'' 1003 sample = (Inr (), sample)"
  using task_unknown_id_no_effect[of 1003 sample "\<lambda>s. s\<lparr>data_file := None\<rparr>"
          "''2026-01-01T00:00:00''"]
    sample_facts
  by (simp add: prod_eq_iff)

section \<open>Updates and the decision task\<close>

lemma update_applicant_Some:
  assumes "find_applicant (collection st) app_id = Inr (Some a)"
  shows "\<exists>i. i < length (collection st) \<and> collection st ! i = a \<and>
       update_applicant app_id updates st =
         (Inr (Some (merge_updates a updates)),
          u_write ((collection st)[i := merge_updates a updates])
            (if data_file st = None
             then (after_read st)\<lparr>defaults := (collection st)[i := merge_updates a updates]\<rparr>
             else after_read st))"
proof -
  from update_in_Some[OF assms, of updates] obtain i where
    i: "i < length (collection st)" "collection st ! i = a"
       "update_in (collection st) app_id updates =
         Inr (Some ((collection st)[i := merge_updates a updates], merge_updates a updates))"
    by blast
  show ?thesis
    by (rule exI[of _ i]) (simp add: i update_applicant_def u_read_eq)
qed

lemma collection_u_write_if: "collection (u_write data (if b then s1 else s2)) = data"
  by (simp add: collection_u_write)

lemma update_applicant_Some_collection:
  assumes "find_applicant (collection st) app_id = Inr (Some a)"
  shows "\<exists>i. i < length (collection st) \<and> collection st ! i = a \<and>
       fst (update_applicant app_id updates st) = Inr (Some (merge_updates a updates)) \<and>
       collection (snd (update_applicant app_id updates st)) =
         (collection st)[i := merge_updates a updates]"
proof -
  from update_applicant_Some[OF assms, of updates] obtain i where
    i: "i < length (collection st)" "collection st ! i = a"
     "update_applicant app_id updates st =
         (Inr (Some (merge_updates a updates)),
          u_write ((collection st)[i := merge_updates a updates])
            (if data_file st = None
             then (after_read st)\<lparr>defaults := (collection st)[i := merge_updates a updates]\<rparr>
             else after_read st))"
    by blast
  show ?thesis
    by (rule exI[of _ i]) (simp only: i fst_conv snd_conv collection_u_write_if simp_thms)
qed

lemma payload_dict_keys: "map fst (payload_dict payload) = [''status'', ''risk'']"
  by (simp add: payload_dict_def)

lemma payload_dict_distinct: "distinct (map fst (payload_dict payload))"
  by (simp add: payload_dict_keys)

lemma patch_Some:
  assumes "find_applicant (collection st) app_id = Inr (Some a)"
  shows "patch_applicant app_id payload st =
     (Inr (merge_updates a (payload_dict payload)),
      snd (update_applicant app_id (payload_dict payload) st))"
proof -
  from update_applicant_Some[OF assms, of "payload_dict payload"] obtain s where
    "update_applicant app_id (payload_dict payload) st =
       (Inr (Some (merge_updates a (payload_dict payload))), s)"
    by blast
  moreover have "merge_updates a (payload_dict payload) \<noteq> []"
    using assms by (simp add: merge_nonempty find_Some_nonempty)
  ultimately show ?thesis
    by (simp add: patch_applicant_def)
qed

lemma payload_dict_status:
  "map_of (payload_dict payload) ''status'' = Some (opt_jval (status payload))"
  by (simp add: payload_dict_def)

lemma payload_dict_risk:
  "map_of (payload_dict payload) ''risk'' = Some (opt_jval (risk payload))"
  by (simp add: payload_dict_def)

lemma payload_dict_other:
  "k \<noteq> ''status'' \<Longrightarrow> k \<noteq> ''risk'' \<Longrightarrow> map_of (payload_dict payload) k = None"
  by (simp add: payload_dict_def)

lemma merge_payload_status:
  "map_of (merge_updates a (payload_dict payload)) ''status'' =
     (case status payload of None \<Rightarrow> map_of a ''status'' | Some s \<Rightarrow> Some (JStr s))"
  by (cases "status payload")
     (simp_all add: merge_lookup[OF payload_dict_distinct] payload_dict_status)

lemma merge_payload_risk:
  "map_of (merge_updates a (payload_dict payload)) ''risk'' =
     (case risk payload of None \<Rightarrow> map_of a ''risk'' | Some r \<Rightarrow> Some (JStr r))"
  by (cases "risk payload")
     (simp_all add: merge_lookup[OF payload_dict_distinct] payload_dict_risk)

lemma merge_payload_other:
  "k \<noteq> ''status'' \<Longrightarrow> k \<noteq> ''risk'' \<Longrightarrow>
   map_of (merge_updates a (payload_dict payload)) k = map_of a k"
  by (simp add: merge_lookup[OF payload_dict_distinct] payload_dict_other)

lemma patch_found:
  assumes "find_applicant (collection st) app_id = Inr (Some a)"
  shows "\<exists>j p. j < length (collection st) \<and> collection st ! j = a
     \<and> fst (patch_applicant app_id payload st) = Inr p
     \<and> collection (snd (patch_applicant app_id payload st)) = (collection st)[j := p]
     \<and> map_of p ''status'' =
          (case status payload of None \<Rightarrow> map_of a ''status'' | Some s \<Rightarrow> Some (JStr s))
     \<and> map_of p ''risk'' =
          (case risk payload of None \<Rightarrow> map_of a ''risk'' | Some r \<Rightarrow> Some (JStr r))
     \<and> (\<forall>k. k \<noteq> ''status'' \<and> k \<noteq> ''risk'' \<longrightarrow> map_of p k = map_of a k)"
proof -
  let ?p = "merge_updates a (payload_dict payload)"
  from update_applicant_Some_collection[OF assms, of "payload_dict payload"] obtain j where
    j: "j < length (collection st)" "collection st ! j = a"
       "collection (snd (update_applicant app_id (payload_dict payload) st)) =
          (collection st)[j := ?p]"
    by blast
  have "fst (patch_applicant app_id payload st) = Inr ?p"
    and "collection (snd (patch_applicant app_id payload st)) = (collection st)[j := ?p]"
    using patch_Some[OF assms, of payload] j(3) by simp_all
  with j(1,2) show ?thesis
    by (intro exI[of _ j] exI[of _ ?p])
       (simp add: merge_payload_status merge_payload_risk merge_payload_other)
qed

text \<open>
  C3. When the lookup finds the record \<open>a\<close> for the id, an update with a payload (a dict:
  its keys are distinct) replaces that record, at its position, by a record whose every
  field is the supplied value where one is supplied and not null, and the previous value
  otherwise; all other positions of the collection are as before. PATCH does the same
  with the payload's two fields and returns the merged record: its status and its risk
  are the payload's values where the payload gives one and the previous values where it
  gives none, every other field is as before, and the collection changes at the position
  of that record only.
\<close>

theorem partial_update_overwrites_supplied_fields:
  assumes "fst (get_applicant app_id st) = Inr (Some a)"
    and "distinct (map fst updates)"
  shows "(\<exists>i a'. i < length (collection st) \<and> collection st ! i = a
     \<and> fst (update_applicant app_id updates st) = Inr (Some a')
     \<and> collection (snd (update_applicant app_id updates st)) = (collection st)[i := a']
     \<and> (\<forall>k. map_of a' k =
           (case map_of updates k of
              None \<Rightarrow> map_of a k
            | Some v \<Rightarrow> if v = JNull then map_of a k else Some v))
     \<and> patch_applicant app_id payload st =
          (Inr (merge_updates a (payload_dict payload)),
           snd (update_applicant app_id (payload_dict payload) st)))
   \<and> (\<exists>j p. j < length (collection st) \<and> collection st ! j = a
     \<and> fst (patch_applicant app_id payload st) = Inr p
     \<and> collection (snd (patch_applicant app_id payload st)) = (collection st)[j := p]
     \<and> map_of p ''status'' =
          (case status payload of None \<Rightarrow> map_of a ''status'' | Some s \<Rightarrow> Some (JStr s))
     \<and> map_of p ''risk'' =
          (case risk payload of None \<Rightarrow> map_of a ''risk'' | Some r \<Rightarrow> Some (JStr r))
     \<and> (\<forall>k. k \<noteq> ''status'' \<and> k \<noteq> ''risk'' \<longrightarrow> map_of p k = map_of a k))"
proof
  from assms(1) have f: "find_applicant (collection st) app_id = Inr (Some a)"
    by (simp add: get_applicant_eq)
  from update_applicant_Some_collection[OF f, of updates] obtain i where
    i: "i < length (collection st)" "collection st ! i = a"
       "fst (update_applicant app_id updates st) = Inr (Some (merge_updates a updates))"
       "collection (snd (update_applicant app_id updates st)) =
         (collection st)[i := merge_updates a updates]"
    by blast
  show "\<exists>i a'. i < length (collection st) \<and> collection st ! i = a
     \<and> fst (update_applicant app_id updates st) = Inr (Some a')
     \<and> collection (snd (update_applicant app_id updates st)) = (collection st)[i := a']
     \<and> (\<forall>k. map_of a' k =
           (case map_of updates k of
              None \<Rightarrow> map_of a k
            | Some v \<Rightarrow> if v = JNull then map_of a k else Some v))
     \<and> patch_applicant app_id payload st =
          (Inr (merge_updates a (payload_dict payload)),
           snd (update_applicant app_id (payload_dict payload) st))"
    apply (rule exI[of _ i])
    apply (rule exI[of _ "merge_updates a updates"])
    using i merge_lookup[OF assms(2), of a] patch_Some[OF f, of payload]
    apply simp
    done
  show "\<exists>j p. j < length (collection st) \<and> collection st ! j = a
     \<and> fst (patch_applicant app_id payload st) = Inr p
     \<and> collection (snd (patch_applicant app_id payload st)) = (collection st)[j := p]
     \<and> map_of p ''status'' =
          (case status payload of None \<Rightarrow> map_of a ''status'' | Some s \<Rightarrow> Some (JStr s))
     \<and> map_of p ''risk'' =
          (case risk payload of None \<Rightarrow> map_of a ''risk'' | Some r \<Rightarrow> Some (JStr r))
     \<and> (\<forall>k. k \<noteq> ''status'' \<and> k \<noteq> ''risk'' \<longrightarrow> map_of p k = map_of a k)"
    by (rule patch_found[OF f])
qed

lemma fields_list_update:
  "i < length data \<Longrightarrow> map_of a' k = map_of (data ! i) k \<Longrightarrow> fields k (data[i := a']) = fields k data"
  by (simp add: fields_def map_update list_update_same_conv)

lemma update_applicant_fields:
  assumes "k \<notin> fst ` set updates"
  shows "fields k (collection (snd (update_applicant app_id updates st))) = fields k (collection st)"
proof (cases "find_applicant (collection st) app_id")
  case (Inl e)
  then show ?thesis by (simp add: update_applicant_error collection_after_read')
next
  case (Inr r)
  show ?thesis
  proof (cases r)
    case None
    with Inr show ?thesis by (simp add: update_applicant_None collection_after_read')
  next
    case (Some a)
    with Inr have f: "find_applicant (collection st) app_id = Inr (Some a)" by simp
    from update_applicant_Some_collection[OF f, of updates] obtain i where
      i: "i < length (collection st)" "collection st ! i = a"
       "collection (snd (update_applicant app_id updates st)) =
         (collection st)[i := merge_updates a updates]"
      by blast
    have "map_of (merge_updates a updates) k = map_of (collection st ! i) k"
      using assms i(2) by (simp add: merge_other_key)
    with i show ?thesis by (simp add: fields_list_update)
  qed
qed

lemma patch_state: "snd (patch_applicant app_id payload st) = snd (update_applicant app_id (payload_dict payload) st)"
  by (simp add: patch_applicant_def split: prod.splits sum.splits)

lemma engine_found:
  "map_of a ''id'' = Some (JInt n) \<Longrightarrow>
   u_mock_decision_engine now a =
     Inr [(''status'', JStr ''Decision Ready''),
          (''risk'', JStr (if even n then ''Low'' else ''Medium'')),
          (''note'', JStr (''Processed at '' @ now))]"
  by (simp add: u_mock_decision_engine_def dict_get_def even_iff_mod_2_eq_zero)

lemma task_found:
  assumes "find_applicant (collection st) applicant_id = Inr (Some a)"
  shows "task during now applicant_id st =
     (case update_applicant applicant_id (decision applicant_id) (during (after_read st)) of
        (Inl e, st2) \<Rightarrow> (Inl e, st2)
      | (Inr _, st2) \<Rightarrow> (Inr (), st2))"
proof -
  from assms have a: "a \<noteq> []" "map_of a ''id'' = Some (JInt applicant_id)"
    using find_Some[of "collection st" applicant_id a] by auto
  show ?thesis
    using a assms
    by (simp add: task_def get_applicant_eq engine_found dict_get_def decision_def)
qed



lemma payload_key_set: "fst ` set (payload_dict payload) = {''status'', ''risk''}"
  by (simp add: payload_dict_def)


lemma update_in_then_find:
  "update_in data app_id updates = Inr (Some (data', a')) \<Longrightarrow>
   map_of a' ''id'' = Some (JInt app_id) \<Longrightarrow>
   find_applicant data' app_id = Inr (Some a')"
proof (induction data arbitrary: data')
  case Nil
  then show ?case by simp
next
  case (Cons b data)
  show ?case
  proof (cases "map_of b ''id'' = Some (JInt app_id)")
    case True
    with Cons.prems show ?thesis by (auto simp: dict_get_def Let_def)
  next
    case False
    with Cons.prems obtain v d where v: "map_of b ''id'' = Some v" "v \<noteq> JInt app_id"
      and u: "update_in data app_id updates = Inr (Some (d, a'))" and d: "data' = b # d"
      by (auto simp: dict_get_def split: option.splits if_splits sum.splits)
    from Cons.IH[OF u Cons.prems(2)] v d show ?thesis
      by (simp add: dict_get_def)
  qed
qed

lemma update_applicant_via_update_in:
  "update_in (collection st) app_id updates = Inr (Some (data', a')) \<Longrightarrow>
   fst (update_applicant app_id updates st) = Inr (Some a') \<and>
   collection (snd (update_applicant app_id updates st)) = data'"
  by (simp add: update_applicant_def u_read_eq collection_u_write)

lemma merge_decision_status:
  "map_of (merge_updates a (decision n)) ''status'' = Some (JStr ''Decision Ready'')"
  by (simp add: decision_def map_of_dict_set)

lemma merge_decision_risk:
  "map_of (merge_updates a (decision n)) ''risk'' = Some (JStr (if even n then ''Low'' else ''Medium''))"
  by (simp add: decision_def map_of_dict_set)

lemma merge_decision_other:
  "k \<noteq> ''status'' \<Longrightarrow> k \<noteq> ''risk'' \<Longrightarrow> map_of (merge_updates a (decision n)) k = map_of a k"
  by (simp add: decision_def map_of_dict_set)

lemma task_alone:
  assumes "find_applicant (collection st) applicant_id = Inr (Some a)"
  shows "fst (task id now applicant_id st) = Inr () \<and>
     find_applicant (collection (snd (task id now applicant_id st))) applicant_id =
       Inr (Some (merge_updates a (decision applicant_id)))"
proof -
  let ?a' = "merge_updates a (decision applicant_id)"
  have f: "find_applicant (collection (after_read st)) applicant_id = Inr (Some a)"
    using assms by (simp add: collection_after_read')
  from update_in_Some[OF f, of "decision applicant_id"] obtain data' where
    u: "update_in (collection (after_read st)) applicant_id (decision applicant_id) =
          Inr (Some (data', ?a'))"
    by blast
  have idk: "map_of ?a' ''id'' = Some (JInt applicant_id)"
    using find_Some[OF assms] by (simp add: merge_decision_other)
  from update_applicant_via_update_in[OF u]
  have r: "fst (update_applicant applicant_id (decision applicant_id) (after_read st)) = Inr (Some ?a')"
    "collection (snd (update_applicant applicant_id (decision applicant_id) (after_read st))) = data'"
    by simp_all
  have t: "task id now applicant_id st =
     (case update_applicant applicant_id (decision applicant_id) (after_read st) of
        (Inl e, st2) \<Rightarrow> (Inl e, st2)
      | (Inr _, st2) \<Rightarrow> (Inr (), st2))"
    using task_found[OF assms, of id now] by simp
  obtain x s where xs: "update_applicant applicant_id (decision applicant_id) (after_read st) = (x, s)"
    by (cases "update_applicant applicant_id (decision applicant_id) (after_read st)")
  with r have x: "x = Inr (Some ?a')" and s: "collection s = data'" by simp_all
  from t xs x have "task id now applicant_id st = (Inr (), s)" by simp
  with s update_in_then_find[OF u idk] show ?thesis by simp
qed

text \<open>
  C2. When the lookup finds the record for the id as the task begins, the task ends with
  exactly the update of that id by the pair status = Decision Ready, risk = Low for an
  even id and Medium for an odd one, applied to the state other requests left while it
  slept. Run with nothing in between, it ends normally and a lookup afterwards returns
  the record with that status and risk and every other field as before.
\<close>

theorem decision_task_sets_status_and_risk:
  assumes "fst (get_applicant applicant_id st) = Inr (Some a)"
  shows "task during now applicant_id st =
           (case update_applicant applicant_id (decision applicant_id) (during (after_read st)) of
              (Inl e, st2) \<Rightarrow> (Inl e, st2)
            | (Inr _, st2) \<Rightarrow> (Inr (), st2))
     \<and> fst (task id now applicant_id st) = Inr ()
     \<and> (\<exists>a'. fst (get_applicant applicant_id (snd (task id now applicant_id st))) = Inr (Some a')
           \<and> map_of a' ''status'' = Some (JStr ''Decision Ready'')
           \<and> map_of a' ''risk'' = Some (JStr (if even applicant_id then ''Low'' else ''Medium''))
           \<and> (\<forall>k. k \<noteq> ''status'' \<and> k \<noteq> ''risk'' \<longrightarrow> map_of a' k = map_of a k))"
proof -
  from assms have f: "find_applicant (collection st) applicant_id = Inr (Some a)"
    by (simp add: get_applicant_eq)
  from task_alone[OF f, of now] task_found[OF f, of during now] show ?thesis
    by (simp add: get_applicant_eq merge_decision_status merge_decision_risk merge_decision_other)
qed

lemma sample_get_1002: "fst (get_applicant 1002 sample) = Inr (Some (DEFAULTS ! 1))"
  by (simp add: get_applicant_eq collection_sample DEFAULTS_def dict_get_def)

theorem decision_task_sets_status_and_risk_witness:
  "fst (get_applicant 1002 sample) = Inr (Some (DEFAULTS ! 1))
   \<and> fst (task id ''2026-01-01T00:00:00'' 1002 sample) = Inr ()
   \<and> (\<exists>a'. fst (get_applicant 1002 (snd (task id ''2026-01-01T00:00:00'' 1002 sample))) = Inr (Some a')
         \<and> map_of a' ''status'' = Some (JStr ''Decision Ready'')
         \<and> map_of a' ''risk'' = Some (JStr ''Low'')
         \<and> map_of a' ''name'' = Some (JStr ''Ben Carter''))"
proof -
  from decision_task_sets_status_and_risk[OF sample_get_1002, of id "''2026-01-01T00:00:00''"] obtain a' where
    a': "fst (task id ''2026-01-01T00:00:00'' 1002 sample) = Inr ()"
      "fst (get_applicant 1002 (snd (task id ''2026-01-01T00:00:00'' 1002 sample))) = Inr (Some a')"
      "map_of a' ''status'' = Some (JStr ''Decision Ready'')"
      "map_of a' ''risk'' = Some (JStr (if even (1002::int) then ''Low'' else ''Medium''))"
      "\<forall>k. k \<noteq> ''status'' \<and> k \<noteq> ''risk'' \<longrightarrow> map_of a' k = map_of (DEFAULTS ! 1) k"
    by blast
  from a'(5) have "map_of a' ''name'' = map_of (DEFAULTS ! 1) ''name''" by simp
  then have n: "map_of a' ''name'' = Some (JStr ''Ben Carter'')" by (simp add: DEFAULTS_def)
  from a'(4) have r: "map_of a' ''risk'' = Some (JStr ''Low'')" by simp
  show ?thesis
    using sample_get_1002 a'(1,2,3) r n by blast
qed

theorem partial_update_overwrites_supplied_fields_witness:
  "fst (get_applicant 1002 sample) = Inr (Some (DEFAULTS ! 1))
   \<and> distinct (map fst [(''status'', JStr ''Denied''), (''risk'', JNull)])
   \<and> (\<exists>i a'. i < length (collection sample) \<and> collection sample ! i = DEFAULTS ! 1
        \<and> fst (update_applicant 1002 [(''status'', JStr ''Denied''), (''risk'', JNull)] sample) = Inr (Some a')
        \<and> collection (snd (update_applicant 1002 [(''status'', JStr ''Denied''), (''risk'', JNull)] sample))
            = (collection sample)[i := a']
        \<and> map_of a' ''status'' = Some (JStr ''Denied'')
        \<and> map_of a' ''risk'' = Some (JStr ''Pending'')
        \<and> map_of a' ''unit'' = Some (JStr ''105A''))
   \<and> (\<exists>j p. j < length (collection sample) \<and> collection sample ! j = DEFAULTS ! 1
        \<and> fst (patch_applicant 1002 (ApplicantUpdate (Some ''Denied'') None) sample) = Inr p
        \<and> collection (snd (patch_applicant 1002 (ApplicantUpdate (Some ''Denied'') None) sample))
            = (collection sample)[j := p]
        \<and> map_of p ''status'' = Some (JStr ''Denied'')
        \<and> map_of p ''risk'' = Some (JStr ''Pending'')
        \<and> map_of p ''unit'' = Some (JStr ''105A''))"
proof -
  have d: "distinct (map fst [(''status'', JStr ''Denied''), (''risk'', JNull)])" by simp
  note t = partial_update_overwrites_supplied_fields[OF sample_get_1002 d,
      of "ApplicantUpdate (Some ''Denied'') None"]
  from t[THEN conjunct1] obtain i a' where
    r: "i < length (collection sample)" "collection sample ! i = DEFAULTS ! 1"
      "fst (update_applicant 1002 [(''status'', JStr ''Denied''), (''risk'', JNull)] sample) = Inr (Some a')"
      "collection (snd (update_applicant 1002 [(''status'', JStr ''Denied''), (''risk'', JNull)] sample))
            = (collection sample)[i := a']"
      "\<forall>k. map_of a' k =
           (case map_of [(''status'', JStr ''Denied''), (''risk'', JNull)] k of
              None \<Rightarrow> map_of (DEFAULTS ! 1) k
            | Some v \<Rightarrow> if v = JNull then map_of (DEFAULTS ! 1) k else Some v)"
    by blast
  from t[THEN conjunct2] obtain j p where
    q: "j < length (collection sample)" "collection sample ! j = DEFAULTS ! 1"
      "fst (patch_applicant 1002 (ApplicantUpdate (Some ''Denied'') None) sample) = Inr p"
      "collection (snd (patch_applicant 1002 (ApplicantUpdate (Some ''Denied'') None) sample))
         = (collection sample)[j := p]"
      "map_of p ''status'' =
         (case status (ApplicantUpdate (Some ''Denied'') None) of
            None \<Rightarrow> map_of (DEFAULTS ! 1) ''status'' | Some s \<Rightarrow> Some (JStr s))"
      "map_of p ''risk'' =
         (case risk (ApplicantUpdate (Some ''Denied'') None) of
            None \<Rightarrow> map_of (DEFAULTS ! 1) ''risk'' | Some r \<Rightarrow> Some (JStr r))"
      "\<forall>k. k \<noteq> ''status'' \<and> k \<noteq> ''risk'' \<longrightarrow> map_of p k = map_of (DEFAULTS ! 1) k"
    by blast
  from r(5) have a1: "map_of a' ''status'' = Some (JStr ''Denied'')" by simp
  from r(5) have "map_of a' ''risk'' = map_of (DEFAULTS ! 1) ''risk''" by simp
  then have a2: "map_of a' ''risk'' = Some (JStr ''Pending'')" by (simp add: DEFAULTS_def)
  from r(5) have "map_of a' ''unit'' = map_of (DEFAULTS ! 1) ''unit''" by simp
  then have a3: "map_of a' ''unit'' = Some (JStr ''105A'')" by (simp add: DEFAULTS_def)
  from q(5) have p1: "map_of p ''status'' = Some (JStr ''Denied'')" by simp
  from q(6) have p2: "map_of p ''risk'' = Some (JStr ''Pending'')" by (simp add: DEFAULTS_def)
  from q(7) have "map_of p ''unit'' = map_of (DEFAULTS ! 1) ''unit''" by simp
  then have p3: "map_of p ''unit'' = Some (JStr ''105A'')" by (simp add: DEFAULTS_def)
  have first: "\<exists>i a'. i < length (collection sample) \<and> collection sample ! i = DEFAULTS ! 1
        \<and> fst (update_applicant 1002 [(''status'', JStr ''Denied''), (''risk'', JNull)] sample) = Inr (Some a')
        \<and> collection (snd (update_applicant 1002 [(''status'', JStr ''Denied''), (''risk'', JNull)] sample))
            = (collection sample)[i := a']
        \<and> map_of a' ''status'' = Some (JStr ''Denied'')
        \<and> map_of a' ''risk'' = Some (JStr ''Pending'')
        \<and> map_of a' ''unit'' = Some (JStr ''105A'')"
    using r(1-4) a1 a2 a3 by (intro exI[of _ i] exI[of _ a'] conjI)
  have second: "\<exists>j p. j < length (collection sample) \<and> collection sample ! j = DEFAULTS ! 1
        \<and> fst (patch_applicant 1002 (ApplicantUpdate (Some ''Denied'') None) sample) = Inr p
        \<and> collection (snd (patch_applicant 1002 (ApplicantUpdate (Some ''Denied'') None) sample))
            = (collection sample)[j := p]
        \<and> map_of p ''status'' = Some (JStr ''Denied'')
        \<and> map_of p ''risk'' = Some (JStr ''Pending'')
        \<and> map_of p ''unit'' = Some (JStr ''105A'')"
    using q(1-4) p1 p2 p3 by (intro exI[of _ j] exI[of _ p] conjI)
  show ?thesis
    by (intro conjI) (rule sample_get_1002 d first second)+
qed


section \<open>Deletion and the HTTP layer\<close>

lemma others_filter: "has_ids data \<Longrightarrow> others data app_id = Inr (without app_id data)"
  by (induction data) (auto simp: has_ids_def without_def dict_get_def)

lemma others_Inr: "others data app_id = Inr new \<Longrightarrow> new = without app_id data"
  by (induction data arbitrary: new)
     (auto simp: without_def dict_get_def split: option.splits sum.splits if_splits)

lemma present_without: "\<not> present app_id (without app_id data)"
  by (auto simp: present_def ids_def without_def)

lemma length_without: "length (without app_id data) + count_id app_id data = length data"
  by (induction data) (auto simp: without_def count_id_def)

lemma count_id_zero: "count_id app_id data = 0 \<longleftrightarrow> \<not> present app_id data"
  by (induction data) (auto simp: count_id_def present_def ids_def)

lemma length_without_eq: "length (without app_id data) = length data \<longleftrightarrow> \<not> present app_id data"
  using length_without[of app_id data] count_id_zero[of app_id data] by arith

lemma delete_has_ids:
  "has_ids (collection st) \<Longrightarrow>
   delete_applicant app_id st =
     (if present app_id (collection st)
      then (Inr True, u_write (without app_id (collection st)) (after_read st))
      else (Inr False, after_read st))"
  by (simp add: delete_applicant_def u_read_eq others_filter length_without_eq)

lemma api_delete_has_ids:
  "has_ids (collection st) \<Longrightarrow>
   api_delete_applicant app_id st =
     (if present app_id (collection st)
      then (Inr (), u_write (without app_id (collection st)) (after_read st))
      else (Inl not_found, after_read st))"
  by (simp add: api_delete_applicant_def delete_has_ids)

lemma list_after_write: "list_applicants (u_write data st) = (data, u_write data st)"
  by (simp add: list_applicants_def u_read_def u_write_def)

lemma list_fixpoint:
  "list_applicants s = (data, s) \<Longrightarrow> ((snd \<circ> list_applicants) ^^ n) s = s"
  by (induction n) simp_all

text \<open>
  C6. In a collection whose records all carry an id and in which exactly one record has
  the given id, delete reports \<open>True\<close> (the API answers without error), the collection
  becomes the previous one without that record, one shorter, and every list call after
  it, however many, returns that collection, in which no record has the id.
\<close>

theorem delete_removes_the_record:
  assumes "has_ids (collection st)" and "count_id app_id (collection st) = 1"
  shows "fst (delete_applicant app_id st) = Inr True
     \<and> api_delete_applicant app_id st = (Inr (), snd (delete_applicant app_id st))
     \<and> collection (snd (delete_applicant app_id st)) = without app_id (collection st)
     \<and> length (without app_id (collection st)) + 1 = length (collection st)
     \<and> (\<forall>n. list_applicants (((snd \<circ> list_applicants) ^^ n) (snd (delete_applicant app_id st)))
              = (without app_id (collection st), snd (delete_applicant app_id st)))
     \<and> \<not> present app_id (without app_id (collection st))"
proof -
  from assms(2) have p: "present app_id (collection st)"
    using count_id_zero[of app_id "collection st"] by simp
  let ?s = "u_write (without app_id (collection st)) (after_read st)"
  have d: "delete_applicant app_id st = (Inr True, ?s)"
    using assms(1) p by (simp add: delete_has_ids)
  have a: "api_delete_applicant app_id st = (Inr (), ?s)"
    using assms(1) p by (simp add: api_delete_has_ids)
  have l: "list_applicants ?s = (without app_id (collection st), ?s)"
    by (rule list_after_write)
  have "\<forall>n. list_applicants (((snd \<circ> list_applicants) ^^ n) ?s) = (without app_id (collection st), ?s)"
    using l by (simp add: list_fixpoint[OF l])
  moreover have "length (without app_id (collection st)) + 1 = length (collection st)"
    using length_without[of app_id "collection st"] assms(2) by simp
  ultimately show ?thesis
    using d a by (simp add: collection_u_write present_without)
qed

lemma api_get_eq:
  "api_get_applicant app_id st =
     (case find_applicant (collection st) app_id of
        Inl e \<Rightarrow> (Inl e, after_read st)
      | Inr None \<Rightarrow> (Inl not_found, after_read st)
      | Inr (Some a) \<Rightarrow> (Inr a, after_read st))"
proof (cases "find_applicant (collection st) app_id")
  case (Inl e)
  then show ?thesis by (simp add: api_get_applicant_def get_applicant_eq)
next
  case (Inr r)
  show ?thesis
  proof (cases r)
    case None
    with Inr show ?thesis by (simp add: api_get_applicant_def get_applicant_eq)
  next
    case (Some a)
    with Inr find_Some_nonempty[of "collection st" app_id a] show ?thesis
      by (simp add: api_get_applicant_def get_applicant_eq)
  qed
qed

lemma run_decision_eq:
  "run_decision app_id background_tasks st =
     (case find_applicant (collection st) app_id of
        Inl e \<Rightarrow> (Inl e, background_tasks, after_read st)
      | Inr None \<Rightarrow> (Inl not_found, background_tasks, after_read st)
      | Inr (Some a) \<Rightarrow>
          (Inr [(''status'', JStr ''queued''), (''applicant_id'', JInt app_id)],
           background_tasks @ [app_id], after_read st))"
proof (cases "find_applicant (collection st) app_id")
  case (Inl e)
  then show ?thesis by (simp add: run_decision_def get_applicant_eq)
next
  case (Inr r)
  show ?thesis
  proof (cases r)
    case None
    with Inr show ?thesis by (simp add: run_decision_def get_applicant_eq)
  next
    case (Some a)
    with Inr find_Some_nonempty[of "collection st" app_id a] show ?thesis
      by (simp add: run_decision_def get_applicant_eq enqueue_decision_agent_def)
  qed
qed

text \<open>
  C7. In a collection whose records all carry an id, each of get, PATCH, delete and
  run-decision answers 404 "Applicant not found" exactly when no record has the id;
  run-decision on an existing id returns the queued acknowledgment with the id and puts
  the task in the queue.
\<close>

theorem not_found_iff_no_record:
  assumes "has_ids (collection st)"
  shows "(fst (api_get_applicant app_id st) = Inl not_found \<longleftrightarrow> \<not> present app_id (collection st))
   \<and> (fst (patch_applicant app_id payload st) = Inl not_found \<longleftrightarrow> \<not> present app_id (collection st))
   \<and> (fst (api_delete_applicant app_id st) = Inl not_found \<longleftrightarrow> \<not> present app_id (collection st))
   \<and> (fst (run_decision app_id background_tasks st) = Inl not_found
        \<longleftrightarrow> \<not> present app_id (collection st))
   \<and> (present app_id (collection st) \<longrightarrow>
        run_decision app_id background_tasks st =
          (Inr [(''status'', JStr ''queued''), (''applicant_id'', JInt app_id)],
           background_tasks @ [app_id], after_read st))"
proof (cases "present app_id (collection st)")
  case True
  from find_present[OF assms True] obtain a where
    f: "find_applicant (collection st) app_id = Inr (Some a)" by blast
  show ?thesis
    using True f assms
    by (simp add: api_get_eq run_decision_eq patch_Some api_delete_has_ids)
next
  case False
  from find_absent[OF assms False] have f: "find_applicant (collection st) app_id = Inr None" .
  show ?thesis
    using False f assms
    by (simp add: api_get_eq run_decision_eq patch_absent_result api_delete_has_ids)
qed

lemma sample_count: "count_id 1002 (collection sample) = 1"
  by (simp add: collection_sample count_id_def DEFAULTS_def)

lemma sample_without: "without 1002 (collection sample) = take 1 DEFAULTS"
  by (simp add: collection_sample without_def DEFAULTS_def)

lemma sample_present: "present 1002 (collection sample)"
  by (simp add: collection_sample present_def ids_def DEFAULTS_def)

theorem delete_removes_the_record_witness:
  "has_ids (collection sample) \<and> count_id 1002 (collection sample) = 1
   \<and> fst (delete_applicant 1002 sample) = Inr True
   \<and> collection (snd (delete_applicant 1002 sample)) = take 1 DEFAULTS
   \<and> fst (list_applicants (snd (list_applicants (snd (delete_applicant 1002 sample))))) = take 1 DEFAULTS
   \<and> \<not> present 1002 (take 1 DEFAULTS)"
proof -
  from delete_removes_the_record[OF sample_has_ids sample_count] have
    r: "fst (delete_applicant 1002 sample) = Inr True"
       "collection (snd (delete_applicant 1002 sample)) = without 1002 (collection sample)"
       "\<forall>n. list_applicants (((snd \<circ> list_applicants) ^^ n) (snd (delete_applicant 1002 sample)))
              = (without 1002 (collection sample), snd (delete_applicant 1002 sample))"
       "\<not> present 1002 (without 1002 (collection sample))"
    by simp_all
  from r(3) have "list_applicants (((snd \<circ> list_applicants) ^^ 1) (snd (delete_applicant 1002 sample)))
       = (without 1002 (collection sample), snd (delete_applicant 1002 sample))"
    by blast
  then have "fst (list_applicants (snd (list_applicants (snd (delete_applicant 1002 sample)))))
       = without 1002 (collection sample)"
    by simp
  with r(1,2,4) sample_has_ids sample_count show ?thesis
    by (simp add: sample_without)
qed

theorem not_found_iff_no_record_witness:
  "has_ids (collection sample)
   \<and> present 1002 (collection sample) \<and> \<not> present 1003 (collection sample)
   \<and> fst (api_get_applicant 1003 sample) = Inl not_found
   \<and> fst (api_get_applicant 1002 sample) \<noteq> Inl not_found
   \<and> fst (api_delete_applicant 1003 sample) = Inl not_found
   \<and> fst (patch_applicant 1003 (ApplicantUpdate None (Some ''High'')) sample) = Inl not_found
   \<and> fst (run_decision 1003 [] sample) = Inl not_found
   \<and> run_decision 1002 [] sample =
        (Inr [(''status'', JStr ''queued''), (''applicant_id'', JInt 1002)], [1002], sample)"
  using not_found_iff_no_record[OF sample_has_ids, of 1003 "ApplicantUpdate None (Some ''High'')" "[]"]
        not_found_iff_no_record[OF sample_has_ids, of 1002 "ApplicantUpdate None (Some ''High'')" "[]"]
        sample_has_ids sample_present sample_absent after_read_present[OF sample_file]
  by simp

section \<open>Creation and unique ids\<close>

lemma max_loop_int:
  "int_ids data \<Longrightarrow> max_loop (JInt m) data = Inr (JInt (fold max (id_values data) m))"
proof (induction data arbitrary: m)
  case Nil
  then show ?case by simp
next
  case (Cons a data)
  from Cons.prems obtain n where n: "map_of a ''id'' = Some (JInt n)" and r: "int_ids data"
    by (auto simp: int_ids_def split: option.splits jval.splits)
  have "(if m < n then JInt n else JInt m) = JInt (max n m)" by (simp add: max_def)
  with Cons.IH[OF r, of "max n m"] n show ?case
    by (simp add: dict_get_def if_distrib[of JInt, symmetric] del: if_distrib)
qed

lemma max_id_int:
  "int_ids data \<Longrightarrow>
   max_id data = Inr (JInt (if data = [] then 1000 else Max (set (id_values data))))"
proof (cases data)
  case Nil
  then show ?thesis by simp
next
  case (Cons a rest)
  assume i: "int_ids data"
  with Cons obtain n where n: "map_of a ''id'' = Some (JInt n)" and r: "int_ids rest"
    by (auto simp: int_ids_def split: option.splits jval.splits)
  have "Max (set (n # id_values rest)) = fold max (id_values rest) n"
    by (rule Max.set_eq_fold)
  with Cons n max_loop_int[OF r, of n] show ?thesis
    by (simp add: dict_get_def)
qed

lemma ids_int: "int_ids data \<Longrightarrow> ids data = map (\<lambda>n. Some (JInt n)) (id_values data)"
  by (induction data) (auto simp: int_ids_def ids_def split: option.splits jval.splits)

lemma id_values_nonempty: "int_ids data \<Longrightarrow> data \<noteq> [] \<Longrightarrow> id_values data \<noteq> []"
  by (cases data) (auto simp: int_ids_def split: option.splits jval.splits)

lemma next_id_greater: "int_ids data \<Longrightarrow> n \<in> set (id_values data) \<Longrightarrow> n < next_id data"
proof -
  assume i: "int_ids data" and n: "n \<in> set (id_values data)"
  then have "data \<noteq> []" by auto
  moreover have "n \<le> Max (set (id_values data))" using n by simp
  ultimately show ?thesis by (simp add: next_id_def)
qed

lemma next_id_absent: "int_ids data \<Longrightarrow> \<not> present (next_id data) data"
  using next_id_greater[of data "next_id data"] by (auto simp: present_def ids_int)

lemma create_int:
  assumes "int_ids (collection st)"
  shows "create_applicant nm un today st =
     (Inr (new_applicant (JInt (next_id (collection st))) nm un today),
      u_write (collection st @ [new_applicant (JInt (next_id (collection st))) nm un today])
        (after_read st))"
  using max_id_int[OF assms]
  by (simp add: create_applicant_def u_read_eq next_id_def Let_def)

text \<open>
  C1. In a collection whose records all carry an integer id, \<open>create_applicant\<close> returns
  and appends a record whose id is 1001 when the collection is empty and the greatest
  existing id plus one otherwise; that id is greater than every existing id, so no
  existing record has it.
\<close>

theorem create_assigns_next_id:
  assumes "int_ids (collection st)"
  shows "create_applicant nm un today st =
           (Inr (new_applicant (JInt (next_id (collection st))) nm un today),
            u_write (collection st @ [new_applicant (JInt (next_id (collection st))) nm un today])
              (after_read st))
     \<and> map_of (new_applicant (JInt (next_id (collection st))) nm un today) ''id''
         = Some (JInt (next_id (collection st)))
     \<and> ids (collection st) = map (\<lambda>n. Some (JInt n)) (id_values (collection st))
     \<and> (\<forall>n \<in> set (id_values (collection st)). n < next_id (collection st))
     \<and> \<not> present (next_id (collection st)) (collection st)"
  using assms
  by (simp add: create_int ids_int next_id_greater next_id_absent)
     (simp add: new_applicant_def)

lemma max_loop_result:
  "max_loop v data = Inr (JInt m) \<Longrightarrow>
   (\<exists>n0. v = JInt n0 \<and> n0 \<le> m) \<and>
   (\<forall>a\<in>set data. \<exists>n. map_of a ''id'' = Some (JInt n) \<and> n \<le> m)"
proof (induction data arbitrary: v)
  case Nil
  then show ?case by simp
next
  case (Cons a data)
  from Cons.prems obtain v' b where
    v': "map_of a ''id'' = Some v'" and b: "py_gt v' v = Inr b"
    and l: "max_loop (if b then v' else v) data = Inr (JInt m)"
    by (auto simp: dict_get_def split: option.splits sum.splits)
  from Cons.IH[OF l] obtain n0 where
    n0: "(if b then v' else v) = JInt n0" "n0 \<le> m"
    and rest: "\<forall>a\<in>set data. \<exists>n. map_of a ''id'' = Some (JInt n) \<and> n \<le> m"
    by blast
  from b n0 obtain x y where xy: "v' = JInt x" "v = JInt y" "b = (y < x)"
    by (cases v'; cases v) (auto split: if_splits)
  with n0 have "x \<le> m" "y \<le> m" by (auto split: if_splits)
  with xy v' rest show ?case by simp
qed

lemma max_id_result:
  "max_id data = Inr (JInt m) \<Longrightarrow> \<forall>a\<in>set data. \<exists>n. map_of a ''id'' = Some (JInt n) \<and> n \<le> m"
proof (cases data)
  case Nil
  then show ?thesis by simp
next
  case (Cons a rest)
  assume "max_id data = Inr (JInt m)"
  with Cons obtain v where v: "map_of a ''id'' = Some v" and l: "max_loop v rest = Inr (JInt m)"
    by (auto simp: dict_get_def split: option.splits)
  from max_loop_result[OF l] v Cons show ?thesis by auto
qed

lemma create_cases:
  "snd (create_applicant nm un today st) = after_read st \<or>
   (\<exists>m. max_id (collection st) = Inr (JInt m) \<and>
        snd (create_applicant nm un today st) =
          u_write (collection st @ [new_applicant (JInt (m + 1)) nm un today]) (after_read st))"
proof (cases "max_id (collection st)")
  case (Inl e)
  then show ?thesis by (simp add: create_applicant_def u_read_eq)
next
  case (Inr v)
  then show ?thesis
    by (cases v) (simp_all add: create_applicant_def u_read_eq Let_def)
qed

lemma create_unique:
  assumes "unique_ids (collection st)"
  shows "unique_ids (collection (snd (create_applicant nm un today st)))"
proof -
  from create_cases[of nm un today st] show ?thesis
  proof
    assume "snd (create_applicant nm un today st) = after_read st"
    with assms show ?thesis by (simp add: collection_after_read')
  next
    assume "\<exists>m. max_id (collection st) = Inr (JInt m) \<and>
        snd (create_applicant nm un today st) =
          u_write (collection st @ [new_applicant (JInt (m + 1)) nm un today]) (after_read st)"
    then obtain m where m: "max_id (collection st) = Inr (JInt m)"
      and s: "snd (create_applicant nm un today st) =
          u_write (collection st @ [new_applicant (JInt (m + 1)) nm un today]) (after_read st)"
      by blast
    from max_id_result[OF m] have "Some (JInt (m + 1)) \<notin> set (ids (collection st))"
      by (fastforce simp: ids_def)
    moreover have "map_of (new_applicant (JInt (m + 1)) nm un today) ''id'' = Some (JInt (m + 1))"
      by (simp add: new_applicant_def)
    ultimately show ?thesis
      using assms s by (simp add: collection_u_write unique_ids_def ids_def)
  qed
qed

lemma ids_fields: "ids data = fields ''id'' data"
  by (simp add: ids_def fields_def)

lemma patch_unique:
  assumes "unique_ids (collection st)"
  shows "unique_ids (collection (snd (patch_applicant app_id payload st)))"
proof -
  have "''id'' \<notin> fst ` set (payload_dict payload)" by (simp add: payload_key_set)
  from update_applicant_fields[OF this, of app_id st] assms show ?thesis
    by (simp add: patch_state unique_ids_def ids_fields)
qed

lemma delete_cases:
  "snd (delete_applicant app_id st) = after_read st \<or>
   snd (delete_applicant app_id st) = u_write (without app_id (collection st)) (after_read st)"
proof (cases "others (collection st) app_id")
  case (Inl e)
  then show ?thesis by (simp add: delete_applicant_def u_read_eq)
next
  case (Inr new)
  with others_Inr[OF Inr] show ?thesis by (simp add: delete_applicant_def u_read_eq)
qed

lemma delete_unique:
  assumes "unique_ids (collection st)"
  shows "unique_ids (collection (snd (delete_applicant app_id st)))"
  using delete_cases[of app_id st] assms
  by (auto simp: collection_after_read' collection_u_write unique_ids_def ids_def without_def
      distinct_map_filter)

text \<open>
  C5. When no two records of the collection have the same id, the same holds of the
  collection after a create, after an update with the status/risk payload of the API,
  and after a delete, whatever their arguments and whether or not they succeed.
\<close>

theorem operations_keep_ids_unique:
  assumes "unique_ids (collection st)"
  shows "unique_ids (collection (snd (create_applicant nm un today st)))
     \<and> unique_ids (collection (snd (patch_applicant app_id payload st)))
     \<and> unique_ids (collection (snd (delete_applicant del_id st)))"
  using assms by (simp add: create_unique patch_unique delete_unique)

lemma sample_int_ids: "int_ids (collection sample)"
  by (simp add: collection_sample int_ids_def DEFAULTS_def)

lemma sample_next_id: "next_id (collection sample) = 1003"
  by (simp add: collection_sample next_id_def DEFAULTS_def)

lemma collection_empty_store: "collection empty_store = []"
  by (simp add: collection_def u_read_def empty_store_def)

theorem create_assigns_next_id_witness:
  "int_ids (collection sample) \<and> int_ids (collection empty_store)
   \<and> fst (create_applicant ''Zed'' ''9Z'' ''2026-01-01'' sample)
       = Inr (new_applicant (JInt 1003) ''Zed'' ''9Z'' ''2026-01-01'')
   \<and> fst (create_applicant ''Zed'' ''9Z'' ''2026-01-01'' empty_store)
       = Inr (new_applicant (JInt 1001) ''Zed'' ''9Z'' ''2026-01-01'')
   \<and> \<not> present 1003 (collection sample)"
proof -
  have e: "int_ids (collection empty_store)" by (simp add: collection_empty_store int_ids_def)
  have n: "next_id (collection empty_store) = 1001" by (simp add: collection_empty_store next_id_def)
  from create_assigns_next_id[OF sample_int_ids, of "''Zed''" "''9Z''" "''2026-01-01''"]
       create_assigns_next_id[OF e, of "''Zed''" "''9Z''" "''2026-01-01''"]
  show ?thesis using sample_int_ids e by (simp add: sample_next_id n)
qed

lemma sample_unique: "unique_ids (collection sample)"
  by (simp add: collection_sample unique_ids_def ids_def DEFAULTS_def)

theorem operations_keep_ids_unique_witness:
  "unique_ids (collection sample)
   \<and> unique_ids (collection (snd (create_applicant ''Zed'' ''9Z'' ''2026-01-01'' sample)))
   \<and> unique_ids (collection (snd (patch_applicant 1002 (ApplicantUpdate (Some ''Denied'') None) sample)))
   \<and> unique_ids (collection (snd (delete_applicant 1001 sample)))"
  using operations_keep_ids_unique[OF sample_unique, of "''Zed''" "''9Z''" "''2026-01-01''" 1002
      "ApplicantUpdate (Some ''Denied'') None" 1001] sample_unique
  by simp

end
